theory Spec2Isabelle
  imports
    Main
    "HOL-Library.Word"
    "HOL-Library.Char_ord"
    "HOL-Library.List_Lexorder"
    "HOL-Library.Signed_Division"
begin

section \<open>Data model\<close>

text \<open>
  The development follows \<^verbatim>\<open>file_context.{h,cc}\<close>, \<^verbatim>\<open>directory.{h,cc}\<close> and
  \<^verbatim>\<open>drive.h\<close> of MaidSafe-Drive. A C++ private member \<^verbatim>\<open>foo_\<close> is written \<open>foo'\<close>
  (an Isabelle name cannot end in an underscore). The build modelled is the one with
  assertions enabled: a failing \<^verbatim>\<open>assert\<close> is the error \<open>assertion_failed\<close>, and the
  dereference of a null smart pointer is the error \<open>null_dereference\<close>. The mutexes are
  not modelled: every function below is one critical section, run to its end.

  A function that mutates its object returns the pair of its outcome (\<open>Inl\<close> the exception
  or abort, \<open>Inr\<close> the returned value) and the object as the function left it, also where
  it throws.
\<close>

datatype error =
    no_such_file        \<comment> \<open>\<^verbatim>\<open>DriveErrors::no_such_file\<close>\<close>
  | file_exists         \<comment> \<open>\<^verbatim>\<open>DriveErrors::file_exists\<close>\<close>
  | unknown             \<comment> \<open>\<^verbatim>\<open>CommonErrors::unknown\<close>\<close>
  | parsing_error       \<comment> \<open>\<^verbatim>\<open>CommonErrors::parsing_error\<close>\<close>
  | assertion_failed
  | null_dereference

type_synonym Identity = string
type_synonym DataMap = string
type_synonym dir_ptr = nat

text \<open>
  \<^verbatim>\<open>boost::asio::steady_timer\<close>, as far as the sources use it: the number of handlers
  waiting on the timer. \<^verbatim>\<open>cancel\<close> and \<^verbatim>\<open>expires_from_now\<close> abort every waiting handler
  and return how many there were; \<^verbatim>\<open>async_wait\<close> adds one. Expiry itself (real time) is
  outside the model.
\<close>

type_synonym steady_timer = nat

definition cancel :: "steady_timer \<Rightarrow> nat \<times> steady_timer" where
  "cancel t = (t, 0)"

definition expires_from_now :: "steady_timer \<Rightarrow> nat \<times> steady_timer" where
  "expires_from_now t = (t, 0)"

definition async_wait :: "steady_timer \<Rightarrow> steady_timer" where
  "async_wait t = Suc t"

text \<open>
  Modelled from the spec: \<^verbatim>\<open>meta_data.h\<close> is not among the sources. \<open>MetaData\<close> has the
  members the sources read and write: the name, the POSIX attributes \<^verbatim>\<open>st_size\<close> and
  \<^verbatim>\<open>st_blocks\<close> (\<^verbatim>\<open>off_t\<close> and \<^verbatim>\<open>blkcnt_t\<close>, 64-bit two's complement), and the two
  smart pointers \<^verbatim>\<open>data_map\<close> (files) and \<^verbatim>\<open>directory_id\<close> (subdirectories).
\<close>

record stat =
  st_size :: "64 word"
  st_blocks :: "64 word"

record MetaData =
  name :: string
  attributes :: stat
  data_map :: "DataMap option"
  directory_id :: "Identity option"

text \<open>
  \<^verbatim>\<open>encrypt::SelfEncryptor\<close> belongs to another library. Its state is the type variable
  \<open>'e\<close>, and its operations are the fields of \<open>SelfEncryptor_ops\<close>, so that every theorem
  holds for any behaviour of the codec. The constructor is the one
  \<^verbatim>\<open>Drive::InitialiseEncryptor\<close> calls, with the drive's three chunk-store hooks fixed.
  It binds the encryptor to the file's data map by reference, and the encryptor writes
  that data map: after a call that leaves the encryptor in the state \<open>e\<close>, a data map that
  held \<open>dm\<close> holds \<open>enc_data_map e dm\<close>.
\<close>

record 'e SelfEncryptor_ops =
  new_SelfEncryptor :: "DataMap \<Rightarrow> 'e"
  enc_Flush :: "'e \<Rightarrow> bool \<times> 'e"
  enc_Read :: "'e \<Rightarrow> 32 word \<Rightarrow> 64 word \<Rightarrow> bool \<times> 'e"
  enc_Write :: "'e \<Rightarrow> string \<Rightarrow> 32 word \<Rightarrow> 64 word \<Rightarrow> bool \<times> 'e"
  enc_size :: "'e \<Rightarrow> 64 word"
  enc_data_map :: "'e \<Rightarrow> DataMap \<Rightarrow> DataMap"

text \<open>
  \<^verbatim>\<open>struct FileContext\<close>. The three \<^verbatim>\<open>unique_ptr\<close> members are options (\<open>None\<close> is the
  null pointer), \<open>open_count\<close> among them: it is a \<^verbatim>\<open>unique_ptr<std::atomic<int>>\<close>.
  \<open>parent\<close> is the address of the owning directory.
\<close>

record 'e FileContext =
  meta_data :: MetaData
  self_encryptor :: "'e option"
  timer :: "steady_timer option"
  open_count :: "int option"
  parent :: "dir_ptr option"
  flushed :: bool

text \<open>\<^verbatim>\<open>FileContext::FileContext(MetaData meta_data_in, Directory* parent_in)\<close>\<close>

definition FileContext_ctor :: "MetaData \<Rightarrow> dir_ptr option \<Rightarrow> 'e FileContext" where
  "FileContext_ctor meta_data_in parent_in =
     \<lparr>meta_data = meta_data_in, self_encryptor = None, timer = None,
      open_count = Some 0, parent = parent_in, flushed = False\<rparr>"

text \<open>
  A file after a call on its encryptor that has left the encryptor in the state \<open>enc1\<close>:
  the encryptor is in that state, and the data map of the file, which the encryptor is
  bound to, is as the encryptor has written it. The attributes and the other members are
  out of the encryptor's reach.
\<close>

definition encryptor_ran :: "'e SelfEncryptor_ops \<Rightarrow> 'e \<Rightarrow> 'e FileContext \<Rightarrow> 'e FileContext" where
  "encryptor_ran C enc1 file_context =
     file_context
       \<lparr>self_encryptor := Some enc1,
        meta_data := (meta_data file_context)
          \<lparr>data_map := map_option (enc_data_map C enc1) (data_map (meta_data file_context))\<rparr>\<rparr>"

text \<open>
  \<^verbatim>\<open>StructuredDataVersions::VersionName\<close> (another library): an index and the name of
  the stored blob. The index is a \<^verbatim>\<open>uint64_t\<close>.
\<close>

record VersionName =
  index :: "64 word"
  id' :: Identity

datatype StoreState = kPending | kOngoing | kComplete

text \<open>
  \<^verbatim>\<open>class Directory\<close>. \<open>cond_var'\<close> counts the \<^verbatim>\<open>notify_one\<close> calls made on the condition
  variable and \<open>posted'\<close> the store functors handed to the io_service with \<^verbatim>\<open>post\<close>; the
  store functor itself calls into the directory handler and is not modelled.
\<close>

record 'e Directory =
  cond_var' :: nat
  parent_id' :: Identity
  directory_id' :: Identity
  timer' :: steady_timer
  posted' :: nat
  versions' :: "VersionName list"
  max_versions' :: "32 word"
  children' :: "'e FileContext list"
  children_count_position' :: nat
  store_state' :: StoreState

section \<open>Directory\<close>

text \<open>
  \<^verbatim>\<open>FlushEncryptor\<close> (unnamed namespace of \<^verbatim>\<open>directory.cc\<close>). The test
  \<^verbatim>\<open>file_context->open_count == 0\<close> compares the \<^verbatim>\<open>unique_ptr\<close> itself with the null
  pointer constant; it does not read the counter.
\<close>

definition FlushEncryptor ::
  "'e SelfEncryptor_ops \<Rightarrow> 'e FileContext \<Rightarrow> (error + unit) \<times> 'e FileContext" where
  "FlushEncryptor C file_context =
     (case self_encryptor file_context of
        None \<Rightarrow> (Inl null_dereference, file_context)
      | Some enc \<Rightarrow>
          let fc1 = encryptor_ran C (snd (enc_Flush C enc)) file_context;
              fc2 = (if open_count fc1 = None then fc1\<lparr>self_encryptor := None\<rparr> else fc1)
          in (Inr (), fc2\<lparr>flushed := True\<rparr>))"

text \<open>
  \<^verbatim>\<open>Directory::FlushChildAndDeleteEncryptor(FileContext* child)\<close>. The directory gives
  only its mutex; the function works on the child.
\<close>

definition FlushChildAndDeleteEncryptor ::
  "'e SelfEncryptor_ops \<Rightarrow> 'e FileContext \<Rightarrow> (error + unit) \<times> 'e FileContext" where
  "FlushChildAndDeleteEncryptor C child =
     (if self_encryptor child \<noteq> None then FlushEncryptor C child else (Inr (), child))"

text \<open>
  \<^verbatim>\<open>Directory::AddNewVersion\<close>. \<open>empty_version\<close> is the default-constructed
  \<^verbatim>\<open>VersionName()\<close> of the other library.
\<close>

definition AddNewVersion ::
  "VersionName \<Rightarrow> 'e Directory \<Rightarrow> Identity
     \<Rightarrow> (Identity \<times> VersionName \<times> VersionName) \<times> 'e Directory" where
  "AddNewVersion empty_version d version_id =
     (let d1 = d\<lparr>store_state' := kComplete\<rparr> in
      if versions' d1 = [] then
        let d2 = d1\<lparr>versions' := versions' d1 @ [\<lparr>index = 0, id' = version_id\<rparr>]\<rparr>;
            result = (directory_id' d2, empty_version, versions' d2 ! 0)
        in (result, d2\<lparr>cond_var' := Suc (cond_var' d2)\<rparr>)
      else
        let d2 = d1\<lparr>versions' :=
                     \<lparr>index = index (hd (versions' d1)) + 1, id' = version_id\<rparr> # versions' d1\<rparr>;
            result = (directory_id' d2, versions' d2 ! 1, versions' d2 ! 0)
        in (result, d2\<lparr>cond_var' := Suc (cond_var' d2)\<rparr>))"

text \<open>A sequence of store completions, one \<^verbatim>\<open>AddNewVersion\<close> call per version id.\<close>

fun AddNewVersions :: "VersionName \<Rightarrow> 'e Directory \<Rightarrow> Identity list \<Rightarrow> 'e Directory" where
  "AddNewVersions empty_version d [] = d"
| "AddNewVersions empty_version d (v # vs) =
     AddNewVersions empty_version (snd (AddNewVersion empty_version d v)) vs"

text \<open>\<^verbatim>\<open>std::find_if\<close>: the position of the first match, or the length (the end iterator).\<close>

primrec find_if :: "('a \<Rightarrow> bool) \<Rightarrow> 'a list \<Rightarrow> nat" where
  "find_if P [] = 0"
| "find_if P (x # xs) = (if P x then 0 else Suc (find_if P xs))"

definition Find :: "'e Directory \<Rightarrow> string \<Rightarrow> nat" where
  "Find d nm = find_if (\<lambda>file_context. name (meta_data file_context) = nm) (children' d)"

text \<open>
  \<^verbatim>\<open>Directory::SortAndResetChildrenCounter\<close>: \<^verbatim>\<open>std::sort\<close> by \<^verbatim>\<open>operator<\<close> on the
  names. Where two children have the same name \<^verbatim>\<open>std::sort\<close> leaves their order open;
  \<open>sort_key\<close> keeps it.
\<close>

definition SortAndResetChildrenCounter :: "'e Directory \<Rightarrow> 'e Directory" where
  "SortAndResetChildrenCounter d =
     d\<lparr>children' := sort_key (\<lambda>c. name (meta_data c)) (children' d),
       children_count_position' := 0\<rparr>"

text \<open>\<^verbatim>\<open>Directory::DoScheduleForStoring(bool use_delay = true)\<close>\<close>

definition DoScheduleForStoring :: "bool \<Rightarrow> 'e Directory \<Rightarrow> (error + unit) \<times> 'e Directory" where
  "DoScheduleForStoring use_delay d =
     (if use_delay then
        let (cancelled_count, t1) = expires_from_now (timer' d);
            d1 = d\<lparr>timer' := t1\<rparr>
        in if cancelled_count > 0 \<and> store_state' d1 \<noteq> kComplete \<and> cancelled_count \<noteq> 1
           then (Inl assertion_failed, d1)
           else (Inr (), d1\<lparr>timer' := async_wait (timer' d1), store_state' := kPending\<rparr>)
      else if store_state' d = kPending then
        let (cancelled_count, t1) = cancel (timer' d);
            d1 = d\<lparr>timer' := t1\<rparr>
        in if cancelled_count > 0 then
             (if cancelled_count \<noteq> 1 then (Inl assertion_failed, d1)
              else (Inr (), d1\<lparr>posted' := Suc (posted' d1), store_state' := kPending\<rparr>))
           else (Inr (), d1\<lparr>store_state' := kPending\<rparr>)
      else (Inr (), d))"

definition ScheduleForStoring :: "'e Directory \<Rightarrow> (error + unit) \<times> 'e Directory" where
  "ScheduleForStoring d = DoScheduleForStoring True d"

text \<open>
  The assertion of \<^verbatim>\<open>GetChild\<close> and \<^verbatim>\<open>GetMutableChild\<close> on the child found; it reads the
  counter through the pointer.
\<close>

definition child_assertion :: "'e FileContext \<Rightarrow> (error + unit)" where
  "child_assertion c =
     (case open_count c of
        None \<Rightarrow> Inl null_dereference
      | Some n \<Rightarrow>
          if n = 0 \<or> (n > 0 \<and> (directory_id (meta_data c) \<noteq> None
                                 \<or> (self_encryptor c \<noteq> None \<and> timer c \<noteq> None)))
          then Inr () else Inl assertion_failed)"

text \<open>
  \<^verbatim>\<open>Directory::GetChild\<close> and \<^verbatim>\<open>Directory::GetMutableChild\<close> return a pointer to the
  child: here its position in \<open>children'\<close>.
\<close>

definition GetChild :: "'e Directory \<Rightarrow> string \<Rightarrow> error + nat" where
  "GetChild d nm =
     (let itr = Find d nm in
      if itr = length (children' d) then Inl no_such_file
      else (case child_assertion (children' d ! itr) of
              Inl e \<Rightarrow> Inl e
            | Inr _ \<Rightarrow> Inr itr))"

definition GetMutableChild :: "'e Directory \<Rightarrow> string \<Rightarrow> error + nat" where
  "GetMutableChild d nm =
     (let itr = Find d nm in
      if itr = length (children' d) then Inl no_such_file
      else (case child_assertion (children' d ! itr) of
              Inl e \<Rightarrow> Inl e
            | Inr _ \<Rightarrow> Inr itr))"

text \<open>\<^verbatim>\<open>Directory::AddChild(FileContext&& child)\<close>; \<open>this\<close> is the directory's address.\<close>

definition AddChild ::
  "dir_ptr \<Rightarrow> 'e Directory \<Rightarrow> 'e FileContext \<Rightarrow> (error + unit) \<times> 'e Directory" where
  "AddChild this d child =
     (let itr = Find d (name (meta_data child)) in
      if itr \<noteq> length (children' d) then (Inl file_exists, d)
      else
        let child1 = child\<lparr>parent := Some this\<rparr>;
            d1 = d\<lparr>children' := children' d @ [child1]\<rparr>;
            d2 = SortAndResetChildrenCounter d1
        in DoScheduleForStoring True d2)"

text \<open>\<^verbatim>\<open>Directory::RemoveChild\<close>\<close>

definition RemoveChild ::
  "'e Directory \<Rightarrow> string \<Rightarrow> (error + 'e FileContext) \<times> 'e Directory" where
  "RemoveChild d nm =
     (let itr = Find d nm in
      if itr = length (children' d) then (Inl no_such_file, d)
      else
        let file_context = children' d ! itr;
            d1 = d\<lparr>children' := take itr (children' d) @ drop (Suc itr) (children' d)\<rparr>;
            d2 = SortAndResetChildrenCounter d1
        in (case DoScheduleForStoring True d2 of
              (Inl e, d3) \<Rightarrow> (Inl e, d3)
            | (Inr _, d3) \<Rightarrow> (Inr file_context, d3)))"

subsection \<open>Serialisation\<close>

text \<open>
  The protobuf message \<^verbatim>\<open>protobuf::Directory\<close> (generated code) with its three fields.
  \<open>'pm\<close> is the message type of one child's metadata.
\<close>

record 'pm proto_Directory =
  pb_directory_id :: string
  pb_max_versions :: "32 word"
  pb_children :: "'pm list"

text \<open>
  What the sources call and do not contain: \<^verbatim>\<open>MetaData::ToProtobuf\<close> and the constructor
  \<^verbatim>\<open>MetaData(const protobuf::MetaData&)\<close> of \<^verbatim>\<open>meta_data.cc\<close>, and the protobuf
  library's \<^verbatim>\<open>SerializeAsString\<close> and \<^verbatim>\<open>ParseFromString\<close> (\<open>None\<close> when it returns
  false). They are parameters, and so is the type \<open>'w\<close> of the serialised bytes (a
  \<^verbatim>\<open>std::string\<close> that only the protobuf library reads).
\<close>

record ('pm, 'w) protobuf =
  ToProtobuf :: "MetaData \<Rightarrow> 'pm"
  MetaData_of_proto :: "'pm \<Rightarrow> MetaData"
  SerializeAsString :: "'pm proto_Directory \<Rightarrow> 'w"
  ParseFromString :: "'w \<Rightarrow> 'pm proto_Directory option"

text \<open>The body of the loop of \<^verbatim>\<open>Directory::Serialise\<close> after \<^verbatim>\<open>ToProtobuf\<close>.\<close>

definition Serialise_child ::
  "'e SelfEncryptor_ops \<Rightarrow> 'e FileContext \<Rightarrow> (error + unit) \<times> 'e FileContext" where
  "Serialise_child C child =
     (if self_encryptor child \<noteq> None then
        (case timer child of
           None \<Rightarrow> (Inl null_dereference, child)
         | Some t \<Rightarrow>
             let c1 = child\<lparr>timer := Some (snd (cancel t))\<rparr> in
             (case FlushEncryptor C c1 of
                (Inl e, c2) \<Rightarrow> (Inl e, c2)
              | (Inr _, c2) \<Rightarrow> (Inr (), c2\<lparr>flushed := False\<rparr>)))
      else (Inr (), child))"

text \<open>The loop over \<^verbatim>\<open>children_\<close>: the messages added so far and the children as left.\<close>

fun Serialise_loop ::
  "'e SelfEncryptor_ops \<Rightarrow> ('pm, 'w) protobuf \<Rightarrow> 'e FileContext list
     \<Rightarrow> (error + 'pm list) \<times> 'e FileContext list" where
  "Serialise_loop C W [] = (Inr [], [])"
| "Serialise_loop C W (child # rest) =
     (let pm = ToProtobuf W (meta_data child) in
      case Serialise_child C child of
        (Inl e, c1) \<Rightarrow> (Inl e, c1 # rest)
      | (Inr _, c1) \<Rightarrow>
          (case Serialise_loop C W rest of
             (Inl e, rest1) \<Rightarrow> (Inl e, c1 # rest1)
           | (Inr pms, rest1) \<Rightarrow> (Inr (pm # pms), c1 # rest1)))"

text \<open>\<^verbatim>\<open>Directory::Serialise\<close>\<close>

definition Serialise ::
  "'e SelfEncryptor_ops \<Rightarrow> ('pm, 'w) protobuf \<Rightarrow> 'e Directory \<Rightarrow> (error + 'w) \<times> 'e Directory" where
  "Serialise C W d =
     (let proto_directory =
            \<lparr>pb_directory_id = directory_id' d, pb_max_versions = max_versions' d,
             pb_children = []\<rparr>
      in case Serialise_loop C W (children' d) of
           (Inl e, cs) \<Rightarrow> (Inl e, d\<lparr>children' := cs\<rparr>)
         | (Inr pms, cs) \<Rightarrow>
             (Inr (SerializeAsString W (proto_directory\<lparr>pb_children := pms\<rparr>)),
              d\<lparr>children' := cs, store_state' := kOngoing\<rparr>))"

text \<open>
  The two constructors of \<^verbatim>\<open>Directory\<close>. \<open>kMaxVersions\<close> is a constant of \<^verbatim>\<open>config.h\<close>,
  which is not among the sources: it is a parameter. \<open>this\<close> is the address of the
  directory under construction. The deserialising constructor throws
  \<open>parsing_error\<close>, and then there is no directory.
\<close>

definition Directory_new :: "32 word \<Rightarrow> Identity \<Rightarrow> Identity \<Rightarrow> (error + unit) \<times> 'e Directory" where
  "Directory_new kMaxVersions parent_id directory_id_in =
     DoScheduleForStoring True
       \<lparr>cond_var' = 0, parent_id' = parent_id, directory_id' = directory_id_in, timer' = 0,
        posted' = 0, versions' = [], max_versions' = kMaxVersions, children' = [],
        children_count_position' = 0, store_state' = kComplete\<rparr>"

definition Directory_parse ::
  "('pm, 'w) protobuf \<Rightarrow> 32 word \<Rightarrow> dir_ptr \<Rightarrow> Identity \<Rightarrow> 'w \<Rightarrow> VersionName list
     \<Rightarrow> error + 'e Directory" where
  "Directory_parse W kMaxVersions this parent_id serialised_directory versions =
     (let d0 = \<lparr>cond_var' = 0, parent_id' = parent_id, directory_id' = [], timer' = 0,
                posted' = 0, versions' = versions, max_versions' = kMaxVersions,
                children' = [], children_count_position' = 0, store_state' = kComplete\<rparr>
      in case ParseFromString W serialised_directory of
           None \<Rightarrow> Inl parsing_error
         | Some proto_directory \<Rightarrow>
             let d1 = d0\<lparr>directory_id' := pb_directory_id proto_directory\<rparr>;
                 d2 = d1\<lparr>max_versions' := pb_max_versions proto_directory\<rparr>;
                 d3 = d2\<lparr>children' := children' d2 @
                        map (\<lambda>pm. FileContext_ctor (MetaData_of_proto W pm) (Some this))
                          (pb_children proto_directory)\<rparr>
             in Inr (SortAndResetChildrenCounter d3))"

section \<open>Drive\<close>

text \<open>\<^verbatim>\<open>Drive::InitialiseEncryptor\<close>; a new timer has no handler waiting.\<close>

definition InitialiseEncryptor ::
  "'e SelfEncryptor_ops \<Rightarrow> 'e FileContext \<Rightarrow> (error + unit) \<times> 'e FileContext" where
  "InitialiseEncryptor C file_context =
     (case open_count file_context of
        None \<Rightarrow> (Inl null_dereference, file_context)
      | Some n \<Rightarrow>
          if \<not> (n = 0 \<or> n = 1) then (Inl assertion_failed, file_context)
          else
            let construct = (\<lambda>fc.
                  case data_map (meta_data fc) of
                    None \<Rightarrow> (Inl null_dereference, fc)
                  | Some dm \<Rightarrow> (Inr (), fc\<lparr>self_encryptor := Some (new_SelfEncryptor C dm)\<rparr>))
            in case timer file_context of
                 None \<Rightarrow> construct (file_context\<lparr>timer := Some 0\<rparr>)
               | Some t \<Rightarrow>
                   let (cancelled, t1) = cancel t;
                       fc1 = file_context\<lparr>timer := Some t1\<rparr>
                   in if cancelled > 0 then
                        (if self_encryptor fc1 = None then (Inl assertion_failed, fc1)
                         else (Inr (), fc1))
                      else construct fc1)"

text \<open>
  \<^verbatim>\<open>boost::filesystem::path\<close> as the list of its elements, with \<^verbatim>\<open>parent_path()\<close> and
  \<^verbatim>\<open>filename()\<close>.
\<close>

type_synonym fs_path = "string list"

definition parent_path :: "fs_path \<Rightarrow> fs_path" where
  "parent_path p = butlast p"

definition filename :: "fs_path \<Rightarrow> string" where
  "filename p = (if p = [] then [] else last p)"

text \<open>
  Modelled from the spec: \<^verbatim>\<open>directory_handler.h\<close> is not among the sources. The handler
  is the resolver from a path to a directory, with its own cache: \<open>directory_handler_Get\<close>
  gives the address of the directory of a path, or throws, and \<open>directories\<close> is the
  cache, the directory object at each address. The other members of \<^verbatim>\<open>Drive\<close> (the
  storage and the chunk-store hooks) are inside \<open>SelfEncryptor_ops\<close>.
\<close>

record 'e Drive =
  directory_handler_Get :: "fs_path \<Rightarrow> error + dir_ptr"
  directories :: "dir_ptr \<Rightarrow> 'e Directory"

text \<open>A \<^verbatim>\<open>FileContext*\<close>: the directory's address and the position in its children.\<close>

type_synonym fc_ptr = "dir_ptr \<times> nat"

definition deref :: "'e Drive \<Rightarrow> fc_ptr \<Rightarrow> 'e FileContext" where
  "deref drv p = children' (directories drv (fst p)) ! snd p"

definition assign :: "'e Drive \<Rightarrow> fc_ptr \<Rightarrow> 'e FileContext \<Rightarrow> 'e Drive" where
  "assign drv p fc =
     drv\<lparr>directories := (directories drv)
            (fst p := (directories drv (fst p))
               \<lparr>children' := (children' (directories drv (fst p)))[snd p := fc]\<rparr>)\<rparr>"

text \<open>\<^verbatim>\<open>Drive::GetContext\<close> and \<^verbatim>\<open>Drive::GetMutableContext\<close>\<close>

definition GetContext :: "'e Drive \<Rightarrow> fs_path \<Rightarrow> error + fc_ptr" where
  "GetContext drv relative_path =
     (case directory_handler_Get drv (parent_path relative_path) of
        Inl e \<Rightarrow> Inl e
      | Inr parent_dir \<Rightarrow>
          (case GetChild (directories drv parent_dir) (filename relative_path) of
             Inl e \<Rightarrow> Inl e
           | Inr i \<Rightarrow> Inr (parent_dir, i)))"

definition GetMutableContext :: "'e Drive \<Rightarrow> fs_path \<Rightarrow> error + fc_ptr" where
  "GetMutableContext drv relative_path =
     (case directory_handler_Get drv (parent_path relative_path) of
        Inl e \<Rightarrow> Inl e
      | Inr parent_dir \<Rightarrow>
          (case GetMutableChild (directories drv parent_dir) (filename relative_path) of
             Inl e \<Rightarrow> Inl e
           | Inr i \<Rightarrow> Inr (parent_dir, i)))"

text \<open>\<^verbatim>\<open>Drive::Flush\<close>\<close>

definition Flush ::
  "'e SelfEncryptor_ops \<Rightarrow> 'e Drive \<Rightarrow> fs_path \<Rightarrow> (error + unit) \<times> 'e Drive" where
  "Flush C drv relative_path =
     (case GetMutableContext drv relative_path of
        Inl e \<Rightarrow> (Inl e, drv)
      | Inr file_context \<Rightarrow>
          (case self_encryptor (deref drv file_context) of
             None \<Rightarrow> (Inr (), drv)
           | Some enc \<Rightarrow>
               let (ok, enc1) = enc_Flush C enc;
                   drv1 = assign drv file_context
                            (encryptor_ran C enc1 (deref drv file_context))
               in if \<not> ok then (Inl unknown, drv1) else (Inr (), drv1)))"

text \<open>
  \<^verbatim>\<open>Drive::Read\<close>. \<^verbatim>\<open>offset + size\<close> is a sum of \<^verbatim>\<open>uint64_t\<close> (the \<^verbatim>\<open>uint32_t\<close> size is
  promoted) and wraps; the difference is cut to \<^verbatim>\<open>uint32_t\<close>. The bytes read are not
  modelled, only the count returned.
\<close>

definition Read ::
  "'e SelfEncryptor_ops \<Rightarrow> 'e Drive \<Rightarrow> fs_path \<Rightarrow> 32 word \<Rightarrow> 64 word
     \<Rightarrow> (error + 32 word) \<times> 'e Drive" where
  "Read C drv relative_path size_in offset =
     (case GetContext drv relative_path of
        Inl e \<Rightarrow> (Inl e, drv)
      | Inr file_context \<Rightarrow>
          (case self_encryptor (deref drv file_context) of
             None \<Rightarrow> (Inl assertion_failed, drv)
           | Some enc \<Rightarrow>
               let (ok, enc1) = enc_Read C enc size_in offset;
                   drv1 = assign drv file_context
                            (encryptor_ran C enc1 (deref drv file_context))
               in if \<not> ok then (Inl unknown, drv1)
                  else if offset + ucast size_in > enc_size C enc1 then
                    (Inr (if offset > enc_size C enc1 then 0
                          else ucast (enc_size C enc1 - offset)), drv1)
                  else (Inr size_in, drv1)))"

text \<open>
  \<^verbatim>\<open>std::max\<close> on \<^verbatim>\<open>off_t\<close> (signed comparison), and \<^verbatim>\<open>Drive::Write\<close>. The flag is the
  macro \<^verbatim>\<open>MAIDSAFE_WIN32\<close>: the Windows build skips the update of the size.
  \<^verbatim>\<open>static_cast<off_t>(offset + size)\<close> keeps the 64 bits of the wrapped sum and reads
  them as signed; \<^verbatim>\<open>st_size / 512\<close> is C++ division, truncating towards zero.
\<close>

definition std_max :: "64 word \<Rightarrow> 64 word \<Rightarrow> 64 word" where
  "std_max a b = (if a <s b then b else a)"

definition Write ::
  "bool \<Rightarrow> 'e SelfEncryptor_ops \<Rightarrow> 'e Drive \<Rightarrow> fs_path \<Rightarrow> string \<Rightarrow> 32 word \<Rightarrow> 64 word
     \<Rightarrow> (error + 32 word) \<times> 'e Drive" where
  "Write MAIDSAFE_WIN32 C drv relative_path data size_in offset =
     (case GetMutableContext drv relative_path of
        Inl e \<Rightarrow> (Inl e, drv)
      | Inr file_context \<Rightarrow>
          (case self_encryptor (deref drv file_context) of
             None \<Rightarrow> (Inl assertion_failed, drv)
           | Some enc \<Rightarrow>
               let (ok, enc1) = enc_Write C enc data size_in offset;
                   drv1 = assign drv file_context
                            (encryptor_ran C enc1 (deref drv file_context))
               in if \<not> ok then (Inl unknown, drv1)
                  else
                    let drv2 =
                          (if MAIDSAFE_WIN32 then drv1
                           else
                             let fc = deref drv1 file_context;
                                 max_size = std_max (offset + ucast size_in)
                                              (st_size (attributes (meta_data fc)));
                                 attrs = (attributes (meta_data fc))
                                           \<lparr>st_size := max_size,
                                            st_blocks := word_of_int (sint max_size sdiv 512)\<rparr>
                             in assign drv1 file_context
                                  (fc\<lparr>meta_data := (meta_data fc)\<lparr>attributes := attrs\<rparr>\<rparr>))
                    in (case parent (deref drv2 file_context) of
                          None \<Rightarrow> (Inl null_dereference, drv2)
                        | Some p \<Rightarrow>
                            (case ScheduleForStoring (directories drv2 p) of
                               (Inl e, pd) \<Rightarrow>
                                 (Inl e, drv2\<lparr>directories := (directories drv2)(p := pd)\<rparr>)
                             | (Inr _, pd) \<Rightarrow>
                                 (Inr size_in,
                                  drv2\<lparr>directories := (directories drv2)(p := pd)\<rparr>)))))"

section \<open>The invariant of the children, and example objects\<close>

text \<open>
  The children of a directory are sorted by name and no two have the same name. Every
  mutator ends with \<open>SortAndResetChildrenCounter\<close>, and \<open>AddChild\<close> refuses a name that
  is present.
\<close>

definition names_sorted_unique :: "'e Directory \<Rightarrow> bool" where
  "names_sorted_unique d \<longleftrightarrow>
     sorted (map (\<lambda>c. name (meta_data c)) (children' d))
     \<and> distinct (map (\<lambda>c. name (meta_data c)) (children' d))"

text \<open>
  A codec whose state is the number of flushes made on it, with five bytes of content,
  which leaves the data map as it finds it, and a protobuf whose messages and bytes are
  the values themselves.
\<close>

definition codec0 :: "nat SelfEncryptor_ops" where
  "codec0 = \<lparr>new_SelfEncryptor = (\<lambda>dm. 0), enc_Flush = (\<lambda>e. (True, Suc e)),
             enc_Read = (\<lambda>e sz off. (True, e)), enc_Write = (\<lambda>e data sz off. (True, e)),
             enc_size = (\<lambda>e. 5), enc_data_map = (\<lambda>e dm. dm)\<rparr>"

definition wire0 :: "(MetaData, MetaData proto_Directory) protobuf" where
  "wire0 = \<lparr>ToProtobuf = (\<lambda>m. m), MetaData_of_proto = (\<lambda>pm. pm),
            SerializeAsString = (\<lambda>pd. pd), ParseFromString = (\<lambda>w. Some w)\<rparr>"

definition file_meta :: MetaData where
  "file_meta = \<lparr>name = ''f.txt'', attributes = \<lparr>st_size = 10, st_blocks = 0\<rparr>,
                data_map = Some ''dm'', directory_id = None\<rparr>"

definition other_meta :: MetaData where
  "other_meta = \<lparr>name = ''a.txt'', attributes = \<lparr>st_size = 0, st_blocks = 0\<rparr>,
                 data_map = Some ''dm2'', directory_id = None\<rparr>"

text \<open>
  A file after its last release (no open, the teardown timer armed), the same file once
  the timer has fired, a file never opened, and an open file.
\<close>

definition idle_file :: "nat FileContext" where
  "idle_file = (FileContext_ctor file_meta (Some 0))\<lparr>self_encryptor := Some 0, timer := Some 1\<rparr>"

definition expired_file :: "nat FileContext" where
  "expired_file = idle_file\<lparr>self_encryptor := Some 3, timer := Some 0\<rparr>"

definition new_file :: "nat FileContext" where
  "new_file = FileContext_ctor file_meta None"

definition open_file :: "nat FileContext" where
  "open_file = (FileContext_ctor file_meta (Some 0))
                 \<lparr>self_encryptor := Some 0, timer := Some 0, open_count := Some 1\<rparr>"

definition empty_version0 :: VersionName where
  "empty_version0 = \<lparr>index = 0, id' = []\<rparr>"

text \<open>A directory that keeps one version, as a serialised directory can ask for.\<close>

definition root_dir :: "nat Directory" where
  "root_dir = \<lparr>cond_var' = 0, parent_id' = ''parent'', directory_id' = ''root'', timer' = 0,
               posted' = 0, versions' = [], max_versions' = 1, children' = [open_file],
               children_count_position' = 0, store_state' = kComplete\<rparr>"

definition two_files_dir :: "nat Directory" where
  "two_files_dir = root_dir\<lparr>children' := [FileContext_ctor other_meta (Some 0), idle_file]\<rparr>"

definition drive0 :: "nat Drive" where
  "drive0 = \<lparr>directory_handler_Get = (\<lambda>p. if p = [] then Inr 0 else Inl no_such_file),
             directories = (\<lambda>a. root_dir)\<rparr>"

definition drive1 :: "nat Drive" where
  "drive1 = \<lparr>directory_handler_Get = (\<lambda>p. if p = [] then Inr 0 else Inl no_such_file),
             directories = (\<lambda>a. two_files_dir)\<rparr>"

section \<open>Lemmas\<close>

subsection \<open>Lookup\<close>

lemma find_if_le: "find_if P xs \<le> length xs"
  by (induction xs) auto

lemma find_if_end: "find_if P xs = length xs \<longleftrightarrow> (\<forall>x \<in> set xs. \<not> P x)"
proof (induction xs)
  case Nil
  show ?case by simp
next
  case (Cons x xs)
  have "find_if P xs \<le> length xs" by (rule find_if_le)
  with Cons show ?case by auto
qed

lemma Find_end:
  "Find d nm = length (children' d)
     \<longleftrightarrow> nm \<notin> set (map (\<lambda>c. name (meta_data c)) (children' d))"
  by (auto simp: Find_def find_if_end)

lemma child_assertion_error: "child_assertion c = Inl e \<Longrightarrow> e \<noteq> no_such_file"
  by (auto simp: child_assertion_def split: option.splits if_splits)

lemma GetChild_bound: "GetChild d nm = Inr i \<Longrightarrow> i < length (children' d)"
  using find_if_le [of "\<lambda>fc. name (meta_data fc) = nm" "children' d"]
  by (auto simp: GetChild_def Find_def Let_def split: if_splits sum.splits)

lemma GetMutableChild_bound: "GetMutableChild d nm = Inr i \<Longrightarrow> i < length (children' d)"
  using find_if_le [of "\<lambda>fc. name (meta_data fc) = nm" "children' d"]
  by (auto simp: GetMutableChild_def Find_def Let_def split: if_splits sum.splits)

lemma GetContext_bound:
  "GetContext drv p = Inr fcp \<Longrightarrow> snd fcp < length (children' (directories drv (fst fcp)))"
  by (auto simp: GetContext_def split: sum.splits dest: GetChild_bound)

lemma GetMutableContext_bound:
  "GetMutableContext drv p = Inr fcp
     \<Longrightarrow> snd fcp < length (children' (directories drv (fst fcp)))"
  by (auto simp: GetMutableContext_def split: sum.splits dest: GetMutableChild_bound)

lemma deref_assign:
  "snd fcp < length (children' (directories drv (fst fcp)))
     \<Longrightarrow> deref (assign drv fcp fc) fcp = fc"
  by (simp add: deref_def assign_def)

lemma assign_bound:
  "snd fcp < length (children' (directories drv (fst fcp))) \<Longrightarrow>
   snd fcp < length (children' (directories (assign drv fcp fc) (fst fcp)))"
  by (simp add: assign_def)

lemma deref_directories_update:
  "children' pdir = children' (directories drv pd) \<Longrightarrow>
   deref (drv\<lparr>directories := (directories drv)(pd := pdir)\<rparr>) fcp = deref drv fcp"
  by (simp add: deref_def)

subsection \<open>The store timer\<close>

lemma DoScheduleForStoring_error:
  "fst (DoScheduleForStoring b d) = Inl e \<Longrightarrow> e = assertion_failed"
  by (auto simp: DoScheduleForStoring_def cancel_def expires_from_now_def Let_def
      split: if_splits)

lemma DoScheduleForStoring_children:
  "children' (snd (DoScheduleForStoring b d)) = children' d"
  by (simp add: DoScheduleForStoring_def expires_from_now_def cancel_def Let_def)

lemma ScheduleForStoring_result:
  "ScheduleForStoring d = (Inr u, d1) \<Longrightarrow> d1 = d\<lparr>timer' := 1, store_state' := kPending\<rparr>"
  by (auto simp: ScheduleForStoring_def DoScheduleForStoring_def expires_from_now_def
      async_wait_def Let_def split: if_splits)

text \<open>A timer that is only ever armed by \<open>DoScheduleForStoring\<close> never fails its assertion.\<close>

lemma DoScheduleForStoring_no_abort:
  "timer' d \<le> 1 \<Longrightarrow> fst (DoScheduleForStoring b d) = Inr ()
     \<and> timer' (snd (DoScheduleForStoring b d)) \<le> 1"
  by (auto simp: DoScheduleForStoring_def expires_from_now_def cancel_def async_wait_def Let_def)

subsection \<open>The encryptor is dropped only through a null counter\<close>

lemma FlushChildAndDeleteEncryptor_drops:
  "self_encryptor child \<noteq> None \<Longrightarrow>
   (self_encryptor (snd (FlushChildAndDeleteEncryptor C child)) = None
      \<longleftrightarrow> open_count child = None)"
  by (auto simp: FlushChildAndDeleteEncryptor_def FlushEncryptor_def encryptor_ran_def Let_def
      split: if_splits)

subsection \<open>Versions\<close>

lemma AddNewVersion_versions:
  "versions' (snd (AddNewVersion ev d v)) =
     \<lparr>index = (if versions' d = [] then 0 else index (hd (versions' d)) + 1), id' = v\<rparr>
       # versions' d"
  by (simp add: AddNewVersion_def Let_def)

lemma AddNewVersion_max_versions:
  "max_versions' (snd (AddNewVersion ev d v)) = max_versions' d"
  by (simp add: AddNewVersion_def Let_def)

subsection \<open>Machine arithmetic\<close>

lemma ucast_32_64: "unat (ucast (s :: 32 word) :: 64 word) = unat s"
  by transfer simp

lemma sint_small:
  assumes "unat (x :: 64 word) < 2 ^ 63"
  shows "sint x = int (unat x)"
proof -
  have "int (unat x) < int (2 ^ 63)" using assms by (simp only: of_nat_less_iff)
  then have u: "uint x < 2 ^ 63" by simp
  have nn: "0 \<le> uint x" by simp
  have lo: "- (2 ^ 63) \<le> uint x"
  proof -
    have "- (2 ^ 63) \<le> (0::int)" by simp
    then show ?thesis using nn by (rule order_trans)
  qed
  have "sint x = signed_take_bit 63 (uint x)" by (simp add: sint_uint)
  also have "\<dots> = uint x" using lo u by (rule signed_take_bit_int_eq_self)
  finally show ?thesis by simp
qed

lemma sint_std_max: "sint (std_max a b) = max (sint b) (sint a)"
  by (simp add: std_max_def word_sless_alt max_def)

lemma sint_offset_plus_size:
  fixes offset :: "64 word" and size_in :: "32 word"
  assumes "unat offset + unat size_in < 2 ^ 63"
  shows "sint (offset + ucast size_in) = int (unat offset + unat size_in)"
proof -
  have "(2::nat) ^ 63 < 2 ^ 64" by simp
  with assms have lt: "unat offset + unat (ucast size_in :: 64 word) < 2 ^ LENGTH(64)"
    by (simp add: ucast_32_64)
  have sum: "unat (offset + ucast size_in) = unat offset + unat size_in"
    using lt by (simp add: unat_add_lem [THEN iffD1] ucast_32_64)
  have "unat (offset + ucast size_in) < 2 ^ 63" using assms sum by simp
  then have "sint (offset + ucast size_in) = int (unat (offset + ucast size_in))"
    by (rule sint_small)
  then show ?thesis using sum by simp
qed

lemma read_count_arith:
  fixes offset esize :: "64 word" and size_in :: "32 word"
  assumes nowrap: "unat offset + unat size_in < 2 ^ 64"
  shows "unat (if offset + ucast size_in > esize
               then (if offset > esize then 0 else (ucast (esize - offset) :: 32 word))
               else size_in)
         = (if unat offset < unat esize then min (unat size_in) (unat esize - unat offset) else 0)"
proof -
  have sum: "unat (offset + ucast size_in) = unat offset + unat size_in"
    using nowrap by (simp add: unat_add_lem [THEN iffD1] ucast_32_64)
  have gt: "(offset + ucast size_in > esize) \<longleftrightarrow> unat esize < unat offset + unat size_in"
    by (simp add: word_less_nat_alt sum)
  have gt2: "(offset > esize) \<longleftrightarrow> unat esize < unat offset"
    by (simp add: word_less_nat_alt)
  have szlt: "unat size_in < 2 ^ 32"
    using unsigned_less [of size_in, where 'a = nat] by simp
  show ?thesis
  proof (cases "unat esize < unat offset + unat size_in")
    case False
    then show ?thesis using gt by auto
  next
    case True
    show ?thesis
    proof (cases "unat esize < unat offset")
      case True
      then show ?thesis using gt gt2 \<open>unat esize < unat offset + unat size_in\<close> by auto
    next
      case False
      then have le: "offset \<le> esize" by (simp add: word_le_nat_alt)
      have d: "unat (esize - offset) = unat esize - unat offset"
        using le by (simp add: unat_sub)
      have small: "unat esize - unat offset < 2 ^ 32" using True szlt by linarith
      have "unat (ucast (esize - offset) :: 32 word) = unat (esize - offset)"
        using small d by (simp add: unsigned_ucast_eq take_bit_nat_eq_self)
      then show ?thesis using gt gt2 True False d by auto
    qed
  qed
qed

lemma Read_value:
  assumes ok: "fst (enc_Read C enc size_in offset) = True"
      and g: "GetContext drv p = Inr fcp"
      and e: "self_encryptor (deref drv fcp) = Some enc"
  shows "fst (Read C drv p size_in offset) =
           Inr (let esize = enc_size C (snd (enc_Read C enc size_in offset)) in
                if offset + ucast size_in > esize
                then (if offset > esize then 0 else ucast (esize - offset))
                else size_in)"
  using assms by (cases "enc_Read C enc size_in offset") (simp add: Read_def Let_def)

subsection \<open>Serialisation and the invariant\<close>

lemma Serialise_loop_messages:
  "Serialise_loop C W cs = (Inr pms, cs1) \<Longrightarrow> pms = map (\<lambda>c. ToProtobuf W (meta_data c)) cs"
proof (induction cs arbitrary: pms cs1)
  case Nil
  then show ?case by simp
next
  case (Cons c cs)
  obtain r c1 where sc: "Serialise_child C c = (r, c1)" by (cases "Serialise_child C c")
  obtain u where r: "r = Inr u" using Cons.prems sc by (cases r) (simp_all add: Let_def)
  obtain r2 rest1 where sl: "Serialise_loop C W cs = (r2, rest1)"
    by (cases "Serialise_loop C W cs")
  obtain pms2 where r2: "r2 = Inr pms2"
    using Cons.prems sc r sl by (cases r2) (simp_all add: Let_def)
  have "pms2 = map (\<lambda>c. ToProtobuf W (meta_data c)) cs"
    using Cons.IH sl r2 by simp
  moreover have "pms = ToProtobuf W (meta_data c) # pms2"
    using Cons.prems sc r sl r2 by (simp add: Let_def)
  ultimately show ?case by simp
qed

lemma distinct_map_sort_key:
  "distinct (map f (sort_key f xs)) = distinct (map f xs)"
  by (induction xs) (simp_all add: distinct_insort_key)

lemma sorted_unique_sort:
  "distinct (map (\<lambda>c. name (meta_data c)) (children' d)) \<Longrightarrow>
   names_sorted_unique (SortAndResetChildrenCounter d)"
  by (simp add: names_sorted_unique_def SortAndResetChildrenCounter_def distinct_map_sort_key)

lemma distinct_take_drop: "distinct ys \<Longrightarrow> distinct (take i ys @ drop (Suc i) ys)"
proof -
  assume d: "distinct ys"
  have "distinct (take i ys @ drop i ys)" using d by simp
  then have "set (take i ys) \<inter> set (drop i ys) = {}" by (simp only: distinct_append)
  moreover have "set (drop (Suc i) ys) \<subseteq> set (drop i ys)"
    by (metis drop_Suc set_drop_subset tl_drop drop_drop plus_1_eq_Suc)
  ultimately have "set (take i ys) \<inter> set (drop (Suc i) ys) = {}" by blast
  then show ?thesis using d by (simp add: distinct_append)
qed

text \<open>The constructor establishes the invariant; adding and removing a child keep it.\<close>

lemma names_sorted_unique_new:
  "names_sorted_unique (snd (Directory_new k pid did))"
  by (simp add: names_sorted_unique_def Directory_new_def DoScheduleForStoring_children)

lemma names_sorted_unique_AddChild:
  assumes "names_sorted_unique d"
  shows "names_sorted_unique (snd (AddChild this d child))"
proof (cases "Find d (name (meta_data child)) = length (children' d)")
  case False
  then show ?thesis using assms by (simp add: AddChild_def)
next
  case True
  then have fresh: "name (meta_data child) \<notin> set (map (\<lambda>c. name (meta_data c)) (children' d))"
    using Find_end [of d "name (meta_data child)"] by simp
  let ?d1 = "d\<lparr>children' := children' d @ [child\<lparr>parent := Some this\<rparr>]\<rparr>"
  have "distinct (map (\<lambda>c. name (meta_data c)) (children' ?d1))"
    using assms fresh by (auto simp: names_sorted_unique_def)
  then have "names_sorted_unique (SortAndResetChildrenCounter ?d1)" by (rule sorted_unique_sort)
  then show ?thesis using True
    by (simp add: AddChild_def Let_def names_sorted_unique_def DoScheduleForStoring_children)
qed

lemma names_sorted_unique_RemoveChild:
  assumes "names_sorted_unique d"
  shows "names_sorted_unique (snd (RemoveChild d nm))"
proof (cases "Find d nm = length (children' d)")
  case True
  then show ?thesis using assms by (simp add: RemoveChild_def)
next
  case False
  let ?i = "Find d nm"
  let ?d1 = "d\<lparr>children' := take ?i (children' d) @ drop (Suc ?i) (children' d)\<rparr>"
  have "distinct (map (\<lambda>c. name (meta_data c)) (children' ?d1))"
    using assms distinct_take_drop [of "map (\<lambda>c. name (meta_data c)) (children' d)" ?i]
    by (simp add: names_sorted_unique_def take_map drop_map)
  then have "names_sorted_unique (SortAndResetChildrenCounter ?d1)" by (rule sorted_unique_sort)
  moreover have "children' (snd (RemoveChild d nm))
      = children' (snd (DoScheduleForStoring True (SortAndResetChildrenCounter ?d1)))"
    using False by (simp add: RemoveChild_def Let_def split: prod.splits sum.splits)
  ultimately show ?thesis
    by (simp add: names_sorted_unique_def DoScheduleForStoring_children)
qed

section \<open>The claims\<close>

subsection \<open>C1: flushing a child and dropping its encryptor\<close>

text \<open>
  Claim C1: for a child that holds an encryptor, \<open>FlushChildAndDeleteEncryptor\<close> flushes the
  encryptor and drops it when the open count is 0. The code does not drop it: for the
  idle file, whose counter holds 0, the call flushes the encryptor once and the child
  still holds it afterwards. \<open>FlushEncryptor\<close> compares the pointer to the counter with
  null, where \<open>Drive::Release\<close> and \<open>Drive::ScheduleDeletionOfEncryptor\<close> read the counter
  through the pointer.
\<close>

theorem FlushChildAndDeleteEncryptor_keeps_encryptor:
  "open_count idle_file = Some 0
   \<and> self_encryptor idle_file = Some 0
   \<and> FlushChildAndDeleteEncryptor codec0 idle_file =
       (Inr (), idle_file\<lparr>self_encryptor := Some 1, flushed := True\<rparr>)
   \<and> self_encryptor (snd (FlushChildAndDeleteEncryptor codec0 idle_file)) \<noteq> None"
  by (simp add: FlushChildAndDeleteEncryptor_def FlushEncryptor_def encryptor_ran_def
      idle_file_def FileContext_ctor_def file_meta_def codec0_def)

subsection \<open>C2: the length of the version history\<close>

text \<open>
  Claim C2, as amended: \<open>AddNewVersion\<close> never removes an entry and does not read
  \<open>max_versions'\<close>. After any sequence of calls the history is longer by one entry for
  each call, the earlier history is its tail, unchanged, and \<open>max_versions'\<close> is as
  before.
\<close>

theorem AddNewVersions_grow:
  "length (versions' (AddNewVersions ev d vs)) = length (versions' d) + length vs
   \<and> drop (length vs) (versions' (AddNewVersions ev d vs)) = versions' d
   \<and> max_versions' (AddNewVersions ev d vs) = max_versions' d"
proof (induction vs arbitrary: d)
  case Nil
  show ?case by simp
next
  case (Cons v vs)
  let ?d1 = "snd (AddNewVersion ev d v)"
  have step: "versions' ?d1 =
      \<lparr>index = (if versions' d = [] then 0 else index (hd (versions' d)) + 1), id' = v\<rparr>
        # versions' d"
    by (rule AddNewVersion_versions)
  have len: "length (versions' (AddNewVersions ev ?d1 vs)) = length (versions' ?d1) + length vs"
    and dr: "drop (length vs) (versions' (AddNewVersions ev ?d1 vs)) = versions' ?d1"
    and mx: "max_versions' (AddNewVersions ev ?d1 vs) = max_versions' ?d1"
    using Cons.IH [of ?d1] by simp_all
  have "drop (length (v # vs)) (versions' (AddNewVersions ev ?d1 vs))
        = drop 1 (drop (length vs) (versions' (AddNewVersions ev ?d1 vs)))"
    by simp
  also have "\<dots> = versions' d" by (simp add: dr step)
  finally have dr': "drop (length (v # vs)) (versions' (AddNewVersions ev ?d1 vs)) = versions' d" .
  show ?case using len dr' mx by (simp add: step AddNewVersion_max_versions)
qed

text \<open>
  The claim as stated fails: a directory that keeps one version and has none yet holds
  two after two calls, the older one still there.
\<close>

theorem AddNewVersions_exceed:
  "length (versions' root_dir) \<le> unat (max_versions' root_dir)
   \<and> versions' (AddNewVersions empty_version0 root_dir [''v1'', ''v2''])
       = [\<lparr>index = 1, id' = ''v2''\<rparr>, \<lparr>index = 0, id' = ''v1''\<rparr>]
   \<and> max_versions' (AddNewVersions empty_version0 root_dir [''v1'', ''v2'']) = 1
   \<and> \<not> length (versions' (AddNewVersions empty_version0 root_dir [''v1'', ''v2'']))
         \<le> unat (max_versions' (AddNewVersions empty_version0 root_dir [''v1'', ''v2'']))"
  by (simp add: AddNewVersion_def root_dir_def Let_def)

text \<open>The amended statement at the same directory.\<close>

theorem AddNewVersions_grow_witness:
  "length (versions' (AddNewVersions empty_version0 root_dir [''v1'', ''v2''])) = 2
   \<and> drop 2 (versions' (AddNewVersions empty_version0 root_dir [''v1'', ''v2''])) = []
   \<and> max_versions' (AddNewVersions empty_version0 root_dir [''v1'', ''v2'']) = 1"
  using AddNewVersions_grow [of empty_version0 root_dir "[''v1'', ''v2'']"]
  by (simp add: root_dir_def)

subsection \<open>C3: reuse of the encryptor on a reopen\<close>

text \<open>
  Claim C3: \<open>InitialiseEncryptor\<close> is called on a file whose counter is 0 or 1 (the
  function asserts it). If the file has a timer and cancelling it returns a count of at
  least 1, the file is left as it was but for the cancelled timer: the encryptor is the
  one it had and none is constructed; the call returns normally when that encryptor is
  present (the function asserts that too). If cancelling returns 0, or if the file had no
  timer (one is created), the encryptor is replaced by a new one constructed from the
  file's data map.
\<close>

theorem InitialiseEncryptor_cases:
  assumes "open_count fc = Some n" and "n = 0 \<or> n = 1"
  shows "(\<forall>t. timer fc = Some t \<and> 1 \<le> fst (cancel t) \<longrightarrow>
            snd (InitialiseEncryptor C fc) = fc\<lparr>timer := Some (snd (cancel t))\<rparr>
            \<and> (self_encryptor fc \<noteq> None \<longrightarrow> fst (InitialiseEncryptor C fc) = Inr ()))
       \<and> (\<forall>t dm. timer fc = Some t \<and> fst (cancel t) = 0 \<and> data_map (meta_data fc) = Some dm \<longrightarrow>
            InitialiseEncryptor C fc =
              (Inr (), fc\<lparr>timer := Some (snd (cancel t)),
                          self_encryptor := Some (new_SelfEncryptor C dm)\<rparr>))
       \<and> (\<forall>dm. timer fc = None \<and> data_map (meta_data fc) = Some dm \<longrightarrow>
            InitialiseEncryptor C fc =
              (Inr (), fc\<lparr>timer := Some 0, self_encryptor := Some (new_SelfEncryptor C dm)\<rparr>))"
  using assms by (auto simp: InitialiseEncryptor_def Let_def cancel_def)

text \<open>
  The three cases at the idle file (its encryptor, flushed 0 times, is kept), at the file
  whose timer has fired (its encryptor, flushed 3 times, is replaced by a new one) and at
  a file that never had a timer.
\<close>

theorem InitialiseEncryptor_cases_witness:
  "open_count idle_file = Some 0 \<and> timer idle_file = Some 1 \<and> 1 \<le> fst (cancel 1)
   \<and> self_encryptor idle_file = Some 0
   \<and> InitialiseEncryptor codec0 idle_file = (Inr (), idle_file\<lparr>timer := Some 0\<rparr>)
   \<and> timer expired_file = Some 0 \<and> fst (cancel 0) = 0 \<and> self_encryptor expired_file = Some 3
   \<and> InitialiseEncryptor codec0 expired_file = (Inr (), expired_file\<lparr>self_encryptor := Some 0\<rparr>)
   \<and> timer new_file = None
   \<and> InitialiseEncryptor codec0 new_file
       = (Inr (), new_file\<lparr>timer := Some 0, self_encryptor := Some 0\<rparr>)"
proof -
  have o1: "open_count idle_file = Some 0" and o2: "open_count expired_file = Some 0"
    and o3: "open_count new_file = Some 0"
    by (simp_all add: idle_file_def expired_file_def new_file_def FileContext_ctor_def)
  have z: "(0::int) = 0 \<or> (0::int) = 1" by simp
  have f: "timer idle_file = Some 1 \<and> self_encryptor idle_file = Some 0
      \<and> timer expired_file = Some 0 \<and> self_encryptor expired_file = Some 3
      \<and> timer new_file = None \<and> data_map (meta_data expired_file) = Some ''dm''
      \<and> data_map (meta_data new_file) = Some ''dm''
      \<and> new_SelfEncryptor codec0 ''dm'' = 0"
    by (simp add: idle_file_def expired_file_def new_file_def FileContext_ctor_def file_meta_def
        codec0_def)
  have e: "expired_file\<lparr>timer := Some 0\<rparr> = expired_file"
    by (simp add: expired_file_def)
  show ?thesis
    using InitialiseEncryptor_cases [OF o1 z, of codec0]
      InitialiseEncryptor_cases [OF o2 z, of codec0]
      InitialiseEncryptor_cases [OF o3 z, of codec0] f o1 e
    by (auto simp: cancel_def prod_eq_iff)
qed

subsection \<open>C4: serialising and parsing a directory\<close>

text \<open>
  Claim C4: let \<open>Serialise\<close> return the bytes \<open>blob\<close> for a directory \<open>d\<close> whose children
  are sorted by name with no name twice. If the protobuf library parses what it has
  serialised, and the conversion of \<open>MetaData\<close> to its message and back gives the
  metadata of each child of \<open>d\<close> again, then the deserialising constructor succeeds on
  \<open>blob\<close>, and the directory it builds has the \<open>directory_id'\<close> and the \<open>max_versions'\<close>
  of \<open>d\<close> and children with the metadata of the children of \<open>d\<close>, in their order.
\<close>

theorem Serialise_roundtrip:
  assumes s: "Serialise C W d = (Inr blob, d1)"
      and pb: "\<forall>pd. ParseFromString W (SerializeAsString W pd) = Some pd"
      and md: "\<forall>c \<in> set (children' d).
                 MetaData_of_proto W (ToProtobuf W (meta_data c)) = meta_data c"
      and inv: "names_sorted_unique d"
  shows "\<exists>d2. Directory_parse W kMaxVersions this parent_id blob versions = Inr d2
            \<and> directory_id' d2 = directory_id' d
            \<and> max_versions' d2 = max_versions' d
            \<and> map meta_data (children' d2) = map meta_data (children' d)"
proof -
  obtain r cs where sl: "Serialise_loop C W (children' d) = (r, cs)"
    by (cases "Serialise_loop C W (children' d)")
  obtain pms where r: "r = Inr pms" using s sl by (cases r) (simp_all add: Serialise_def)
  have pms: "pms = map (\<lambda>c. ToProtobuf W (meta_data c)) (children' d)"
    using sl r by (simp add: Serialise_loop_messages)
  let ?pd = "\<lparr>pb_directory_id = directory_id' d, pb_max_versions = max_versions' d,
              pb_children = pms\<rparr>"
  have blob: "blob = SerializeAsString W ?pd" using s sl r by (simp add: Serialise_def)
  have parse: "ParseFromString W blob = Some ?pd" using pb blob by simp
  let ?new = "map (\<lambda>pm. FileContext_ctor (MetaData_of_proto W pm) (Some this)) pms"
  have metas: "map meta_data ?new = map meta_data (children' d)"
    using md by (simp add: pms FileContext_ctor_def)
  have names: "map (\<lambda>c. name (meta_data c)) ?new = map (\<lambda>c. name (meta_data c)) (children' d)"
  proof -
    have "map name (map meta_data ?new) = map name (map meta_data (children' d))"
      by (simp only: metas)
    then show ?thesis by (simp add: comp_def)
  qed
  have "sorted (map (\<lambda>c. name (meta_data c)) ?new)"
    using inv by (simp only: names names_sorted_unique_def)
  then have sorted_id: "sort_key (\<lambda>c. name (meta_data c)) ?new = ?new"
    by (rule sort_key_id_if_sorted)
  let ?d2 = "SortAndResetChildrenCounter
            \<lparr>cond_var' = 0, parent_id' = parent_id, directory_id' = directory_id' d, timer' = 0,
             posted' = 0, versions' = versions, max_versions' = max_versions' d,
             children' = ?new, children_count_position' = 0, store_state' = kComplete\<rparr>"
  have p: "Directory_parse W kMaxVersions this parent_id blob versions = Inr ?d2"
    by (simp add: Directory_parse_def parse Let_def)
  have c: "children' ?d2 = ?new"
    using sorted_id by (simp add: SortAndResetChildrenCounter_def)
  have "directory_id' ?d2 = directory_id' d" and "max_versions' ?d2 = max_versions' d"
    by (simp_all add: SortAndResetChildrenCounter_def)
  moreover have "map meta_data (children' ?d2) = map meta_data (children' d)"
    by (simp only: c metas)
  ultimately show ?thesis using p by blast
qed

text \<open>
  A directory with two files, one of them with a live encryptor, serialised and parsed
  under another parent, at another address and with another default for the versions.
\<close>

theorem Serialise_roundtrip_witness:
  "Serialise codec0 wire0 two_files_dir =
     (Inr \<lparr>pb_directory_id = ''root'', pb_max_versions = 1, pb_children = [other_meta, file_meta]\<rparr>,
      two_files_dir\<lparr>children' := [FileContext_ctor other_meta (Some 0),
                                     idle_file\<lparr>self_encryptor := Some 1, timer := Some 0\<rparr>],
                    store_state' := kOngoing\<rparr>)
   \<and> names_sorted_unique two_files_dir
   \<and> (\<exists>d2 :: nat Directory.
        Directory_parse wire0 100 7 ''elsewhere''
          \<lparr>pb_directory_id = ''root'', pb_max_versions = 1, pb_children = [other_meta, file_meta]\<rparr>
          [] = Inr d2
        \<and> directory_id' d2 = ''root'' \<and> max_versions' d2 = 1
        \<and> map meta_data (children' d2) = [other_meta, file_meta])"
proof -
  have s: "Serialise codec0 wire0 two_files_dir =
     (Inr \<lparr>pb_directory_id = ''root'', pb_max_versions = 1, pb_children = [other_meta, file_meta]\<rparr>,
      two_files_dir\<lparr>children' := [FileContext_ctor other_meta (Some 0),
                                     idle_file\<lparr>self_encryptor := Some 1, timer := Some 0\<rparr>],
                    store_state' := kOngoing\<rparr>)"
    by (simp add: Serialise_def Serialise_child_def FlushEncryptor_def encryptor_ran_def
        cancel_def two_files_dir_def root_dir_def idle_file_def FileContext_ctor_def
        file_meta_def codec0_def wire0_def Let_def)
  have pb: "\<forall>pd. ParseFromString wire0 (SerializeAsString wire0 pd) = Some pd"
    by (simp add: wire0_def)
  have md: "\<forall>c \<in> set (children' two_files_dir).
              MetaData_of_proto wire0 (ToProtobuf wire0 (meta_data c)) = meta_data c"
    by (simp add: wire0_def)
  have inv: "names_sorted_unique two_files_dir"
    by (simp add: names_sorted_unique_def two_files_dir_def idle_file_def FileContext_ctor_def
        other_meta_def file_meta_def)
  have m: "map meta_data (children' two_files_dir) = [other_meta, file_meta]"
    by (simp add: two_files_dir_def idle_file_def FileContext_ctor_def)
  have i: "directory_id' two_files_dir = ''root''" and x: "max_versions' two_files_dir = 1"
    by (simp_all add: two_files_dir_def root_dir_def)
  show ?thesis
    using s inv Serialise_roundtrip [OF s pb md inv, of 100 7 "''elsewhere''" "[]", where ?'d = nat]
    by (simp only: m i x)
qed

subsection \<open>C5: the count returned by a read\<close>

text \<open>
  Claim C5, as amended: let \<open>Read\<close> succeed on a file with a live encryptor, and let
  \<open>offset + size\<close> be less than \<open>2 ^ 64\<close>, so that the 64-bit sum does not wrap. Then the
  count returned is the smaller of \<open>size\<close> and \<open>encryptor.size() - offset\<close> when the
  offset is before the end, and 0 otherwise. The size is that of the file's encryptor
  after the read, which is when the code asks for it.
\<close>

theorem Read_count:
  assumes r: "Read C drv p size_in offset = (Inr n, drv1)"
      and g: "GetContext drv p = Inr fcp"
      and e: "self_encryptor (deref drv fcp) = Some enc"
      and nowrap: "unat offset + unat size_in < 2 ^ 64"
  shows "self_encryptor (deref drv1 fcp) = Some (snd (enc_Read C enc size_in offset))
       \<and> unat n = (let esize = unat (enc_size C (snd (enc_Read C enc size_in offset))) in
                   if unat offset < esize then min (unat size_in) (esize - unat offset) else 0)"
proof -
  have ok: "fst (enc_Read C enc size_in offset) = True"
    using r g e by (auto simp: Read_def Let_def split: prod.splits if_splits)
  have b: "snd fcp < length (children' (directories drv (fst fcp)))"
    using g by (rule GetContext_bound)
  have d1: "drv1 = assign drv fcp
               (encryptor_ran C (snd (enc_Read C enc size_in offset)) (deref drv fcp))"
    using r g e by (auto simp: Read_def Let_def split: prod.splits if_splits)
  have enc1: "self_encryptor (deref drv1 fcp) = Some (snd (enc_Read C enc size_in offset))"
    by (simp add: d1 deref_assign [OF b] encryptor_ran_def)
  have "Inr n = fst (Read C drv p size_in offset)" using r by simp
  also have "\<dots> = Inr (let esize = enc_size C (snd (enc_Read C enc size_in offset)) in
                if offset + ucast size_in > esize
                then (if offset > esize then 0 else ucast (esize - offset))
                else size_in)"
    by (rule Read_value [OF ok g e])
  finally have n: "n = (let esize = enc_size C (snd (enc_Read C enc size_in offset)) in
                if offset + ucast size_in > esize
                then (if offset > esize then 0 else ucast (esize - offset))
                else size_in)" by simp
  have "unat n = (let esize = unat (enc_size C (snd (enc_Read C enc size_in offset))) in
                   if unat offset < esize then min (unat size_in) (esize - unat offset) else 0)"
    unfolding n Let_def by (rule read_count_arith [OF nowrap])
  with enc1 show ?thesis by simp
qed

text \<open>
  The claim as stated fails where the sum wraps: a read of 2 bytes at offset
  \<open>2 ^ 64 - 1\<close> of a file of 5 bytes, which the codec accepts, returns 2, though the offset
  is past the end.
\<close>

theorem Read_wraps:
  "GetContext drive0 [''f.txt''] = Inr (0, 0)
   \<and> self_encryptor (deref drive0 (0, 0)) = Some 0
   \<and> enc_size codec0 (snd (enc_Read codec0 0 2 18446744073709551615)) = 5
   \<and> (5 :: 64 word) \<le> 18446744073709551615
   \<and> fst (Read codec0 drive0 [''f.txt''] 2 18446744073709551615) = Inr 2"
  by (simp add: Read_def GetContext_def GetChild_def Find_def child_assertion_def drive0_def
      root_dir_def open_file_def FileContext_ctor_def file_meta_def codec0_def deref_def
      encryptor_ran_def parent_path_def filename_def Let_def)

text \<open>A read of 10 bytes at offset 2 of the same file returns the 3 bytes left.\<close>

theorem Read_count_witness:
  "GetContext drive0 [''f.txt''] = Inr (0, 0)
   \<and> self_encryptor (deref drive0 (0, 0)) = Some 0
   \<and> unat (2 :: 64 word) + unat (10 :: 32 word) < 2 ^ 64
   \<and> fst (Read codec0 drive0 [''f.txt''] 10 2) = Inr 3
   \<and> unat (3 :: 32 word) = min (unat (10 :: 32 word)) (5 - 2)"
proof -
  have g: "GetContext drive0 [''f.txt''] = Inr (0, 0)"
    by (simp add: GetContext_def GetChild_def Find_def child_assertion_def drive0_def
        root_dir_def open_file_def FileContext_ctor_def file_meta_def parent_path_def
        filename_def Let_def)
  have e: "self_encryptor (deref drive0 (0, 0)) = Some 0"
    by (simp add: deref_def drive0_def root_dir_def open_file_def)
  have f: "fst (Read codec0 drive0 [''f.txt''] 10 2) = Inr 3"
    by (simp add: Read_def g e codec0_def encryptor_ran_def Let_def)
  have r: "Read codec0 drive0 [''f.txt''] 10 2 = (Inr 3, snd (Read codec0 drive0 [''f.txt''] 10 2))"
    using f by (simp add: prod_eq_iff)
  have n: "unat (2 :: 64 word) + unat (10 :: 32 word) < 2 ^ 64" by simp
  show ?thesis using g e f n Read_count [OF r g e n] by simp
qed

subsection \<open>C6: the size after a write\<close>

text \<open>
  Claim C6, as amended: every successful \<open>Write\<close> returns \<open>size\<close> and schedules the file's
  parent directory for storing (its store timer has one handler waiting and its state is
  \<open>kPending\<close>). In a build without \<open>MAIDSAFE_WIN32\<close>, when \<open>offset + size\<close> is less than
  \<open>2 ^ 63\<close>, so that the sum is the same number as an \<open>off_t\<close>, the file's \<open>st_size\<close>
  afterwards is the larger of its previous value and \<open>offset + size\<close>. In a build with
  \<open>MAIDSAFE_WIN32\<close> the write does not update \<open>st_size\<close>.
\<close>

theorem Write_effect:
  assumes w: "Write win32 C drv p data size_in offset = (Inr n, drv1)"
      and g: "GetMutableContext drv p = Inr fcp"
  shows "n = size_in
       \<and> (\<exists>pd. parent (deref drv fcp) = Some pd
                \<and> store_state' (directories drv1 pd) = kPending
                \<and> timer' (directories drv1 pd) = 1)
       \<and> (\<not> win32 \<and> unat offset + unat size_in < 2 ^ 63 \<longrightarrow>
            sint (st_size (attributes (meta_data (deref drv1 fcp))))
              = max (sint (st_size (attributes (meta_data (deref drv fcp)))))
                    (int (unat offset + unat size_in)))
       \<and> (win32 \<longrightarrow>
            st_size (attributes (meta_data (deref drv1 fcp)))
              = st_size (attributes (meta_data (deref drv fcp))))"
proof -
  let ?fc = "deref drv fcp"
  have b: "snd fcp < length (children' (directories drv (fst fcp)))"
    using g by (rule GetMutableContext_bound)
  obtain enc where e: "self_encryptor ?fc = Some enc"
    using w g by (cases "self_encryptor ?fc") (simp_all add: Write_def)
  obtain ok enc1 where ew: "enc_Write C enc data size_in offset = (ok, enc1)"
    by (cases "enc_Write C enc data size_in offset")
  have ok: "ok" using w g e ew by (cases ok) (simp_all add: Write_def)
  define fcA where "fcA = encryptor_ran C enc1 ?fc"
  define drvA where "drvA = assign drv fcp fcA"
  define attrs where "attrs = (attributes (meta_data fcA))
      \<lparr>st_size := std_max (offset + ucast size_in) (st_size (attributes (meta_data fcA))),
       st_blocks := word_of_int
         (sint (std_max (offset + ucast size_in) (st_size (attributes (meta_data fcA)))) sdiv 512)\<rparr>"
  define fcB where
    "fcB = (if win32 then fcA else fcA\<lparr>meta_data := (meta_data fcA)\<lparr>attributes := attrs\<rparr>\<rparr>)"
  define drvB where "drvB = (if win32 then drvA else assign drvA fcp fcB)"
  have bA: "snd fcp < length (children' (directories drvA (fst fcp)))"
    unfolding drvA_def using b by (rule assign_bound)
  have dA: "deref drvA fcp = fcA" unfolding drvA_def using b by (rule deref_assign)
  have dB: "deref drvB fcp = fcB"
    by (cases win32) (simp_all add: drvB_def fcB_def dA deref_assign [OF bA])
  have attrA: "attributes (meta_data fcA) = attributes (meta_data ?fc)"
    and parA: "parent fcA = parent ?fc"
    by (simp_all add: fcA_def encryptor_ran_def)
  have parB: "parent fcB = parent ?fc" by (simp add: fcB_def parA)
  have W: "Write win32 C drv p data size_in offset =
        (case parent fcB of
           None \<Rightarrow> (Inl null_dereference, drvB)
         | Some q \<Rightarrow>
             (case ScheduleForStoring (directories drvB q) of
                (Inl e, pd) \<Rightarrow> (Inl e, drvB\<lparr>directories := (directories drvB)(q := pd)\<rparr>)
              | (Inr _, pd) \<Rightarrow> (Inr size_in, drvB\<lparr>directories := (directories drvB)(q := pd)\<rparr>)))"
    unfolding fcB_def drvB_def attrs_def drvA_def fcA_def using ok
    by (cases win32)
       (simp_all add: Write_def g e ew Let_def deref_assign [OF b]
          deref_assign [OF assign_bound [OF b]] split: option.split prod.split sum.split)
  obtain q where q: "parent fcB = Some q"
    using w W by (cases "parent fcB") simp_all
  obtain r pdir where s: "ScheduleForStoring (directories drvB q) = (r, pdir)"
    by (cases "ScheduleForStoring (directories drvB q)")
  obtain u where r: "r = Inr u" using w W q s by (cases r) simp_all
  have n: "n = size_in" and d1: "drv1 = drvB\<lparr>directories := (directories drvB)(q := pdir)\<rparr>"
    using w W q s r by simp_all
  have pdir: "pdir = (directories drvB q)\<lparr>timer' := 1, store_state' := kPending\<rparr>"
    using s r ScheduleForStoring_result [of "directories drvB q" u pdir] by simp
  have sched: "store_state' (directories drv1 q) = kPending \<and> timer' (directories drv1 q) = 1"
    by (simp add: d1 pdir)
  have "children' pdir = children' (directories drvB q)" by (simp add: pdir)
  then have d1B: "deref drv1 fcp = fcB" unfolding d1 by (simp add: deref_directories_update dB)
  have posix: "\<not> win32 \<and> unat offset + unat size_in < 2 ^ 63 \<longrightarrow>
            sint (st_size (attributes (meta_data (deref drv1 fcp))))
              = max (sint (st_size (attributes (meta_data ?fc)))) (int (unat offset + unat size_in))"
  proof
    assume a: "\<not> win32 \<and> unat offset + unat size_in < 2 ^ 63"
    then have nowrap: "unat offset + unat size_in < 2 ^ 63" by (rule conjunct2)
    have "st_size (attributes (meta_data (deref drv1 fcp)))
            = std_max (offset + ucast size_in) (st_size (attributes (meta_data ?fc)))"
      using a by (simp add: d1B fcB_def attrs_def attrA)
    then show "sint (st_size (attributes (meta_data (deref drv1 fcp))))
              = max (sint (st_size (attributes (meta_data ?fc)))) (int (unat offset + unat size_in))"
      using sint_offset_plus_size [OF nowrap] by (simp add: sint_std_max)
  qed
  have win: "win32 \<longrightarrow>
       st_size (attributes (meta_data (deref drv1 fcp))) = st_size (attributes (meta_data ?fc))"
    by (simp add: d1B fcB_def attrA)
  show ?thesis using n q parB sched posix win by simp
qed

text \<open>
  The claim as stated fails in two places. A write of 1 byte at offset \<open>2 ^ 63\<close> to a file
  of size 10 succeeds and leaves the size 10: the sum is negative as an \<open>off_t\<close>. And in a
  build with \<open>MAIDSAFE_WIN32\<close> a write of 5 bytes at offset 20 leaves the size 10.
\<close>

theorem Write_size_not_max:
  "fst (Write False codec0 drive0 [''f.txt''] ''x'' 1 9223372036854775808) = Inr 1
   \<and> st_size (attributes (meta_data (deref drive0 (0, 0)))) = 10
   \<and> st_size (attributes (meta_data
        (deref (snd (Write False codec0 drive0 [''f.txt''] ''x'' 1 9223372036854775808)) (0, 0))))
       = 10
   \<and> (10 :: int) \<noteq> max 10 (9223372036854775808 + 1)
   \<and> fst (Write True codec0 drive0 [''f.txt''] ''hello'' 5 20) = Inr 5
   \<and> st_size (attributes (meta_data
        (deref (snd (Write True codec0 drive0 [''f.txt''] ''hello'' 5 20)) (0, 0)))) = 10
   \<and> (10 :: int) \<noteq> max 10 (20 + 5)"
  by (simp add: Write_def GetMutableContext_def GetMutableChild_def Find_def child_assertion_def
      drive0_def root_dir_def open_file_def FileContext_ctor_def file_meta_def codec0_def
      deref_def assign_def encryptor_ran_def parent_path_def filename_def Let_def std_max_def
      word_sless_alt ScheduleForStoring_def DoScheduleForStoring_def expires_from_now_def
      async_wait_def)

text \<open>The write of 5 bytes at offset 20 to the file of size 10, in either build.\<close>

theorem Write_effect_witness:
  "GetMutableContext drive0 [''f.txt''] = Inr (0, 0)
   \<and> unat (20 :: 64 word) + unat (5 :: 32 word) < 2 ^ 63
   \<and> sint (st_size (attributes (meta_data (deref drive0 (0, 0))))) = 10
   \<and> parent (deref drive0 (0, 0)) = Some 0
   \<and> fst (Write False codec0 drive0 [''f.txt''] ''hello'' 5 20) = Inr 5
   \<and> sint (st_size (attributes (meta_data
        (deref (snd (Write False codec0 drive0 [''f.txt''] ''hello'' 5 20)) (0, 0))))) = 25
   \<and> store_state' (directories (snd (Write False codec0 drive0 [''f.txt''] ''hello'' 5 20)) 0)
       = kPending
   \<and> timer' (directories (snd (Write False codec0 drive0 [''f.txt''] ''hello'' 5 20)) 0) = 1
   \<and> fst (Write True codec0 drive0 [''f.txt''] ''hello'' 5 20) = Inr 5
   \<and> st_size (attributes (meta_data
        (deref (snd (Write True codec0 drive0 [''f.txt''] ''hello'' 5 20)) (0, 0))))
       = st_size (attributes (meta_data (deref drive0 (0, 0))))
   \<and> store_state' (directories (snd (Write True codec0 drive0 [''f.txt''] ''hello'' 5 20)) 0)
       = kPending"
proof -
  have g: "GetMutableContext drive0 [''f.txt''] = Inr (0, 0)"
    by (simp add: GetMutableContext_def GetMutableChild_def Find_def child_assertion_def
        drive0_def root_dir_def open_file_def FileContext_ctor_def file_meta_def parent_path_def
        filename_def Let_def)
  have d: "deref drive0 (0, 0) = open_file"
    by (simp add: deref_def drive0_def root_dir_def)
  have f: "fst (Write win32 codec0 drive0 [''f.txt''] ''hello'' 5 20) = Inr 5" for win32
    by (cases win32)
       (simp_all add: Write_def GetMutableContext_def GetMutableChild_def Find_def
          child_assertion_def drive0_def root_dir_def open_file_def FileContext_ctor_def
          file_meta_def codec0_def deref_def assign_def encryptor_ran_def parent_path_def
          filename_def Let_def ScheduleForStoring_def DoScheduleForStoring_def
          expires_from_now_def)
  have w: "Write win32 codec0 drive0 [''f.txt''] ''hello'' 5 20 =
             (Inr 5, snd (Write win32 codec0 drive0 [''f.txt''] ''hello'' 5 20))" for win32
    using f [of win32] by (simp add: prod_eq_iff)
  have n: "unat (20 :: 64 word) + unat (5 :: 32 word) < 2 ^ 63" by simp
  have p: "parent (deref drive0 (0, 0)) = Some 0
           \<and> sint (st_size (attributes (meta_data (deref drive0 (0, 0))))) = 10"
    by (simp add: d open_file_def FileContext_ctor_def file_meta_def)
  show ?thesis
    using g n p f [of False] f [of True]
      Write_effect [OF w [of False] g] Write_effect [OF w [of True] g]
    by simp
qed

subsection \<open>C7: what AddNewVersion returns and leaves\<close>

text \<open>
  Claim C7: \<open>AddNewVersion\<close> puts at the head of the history a version with the given id
  and with index 0 if the history was empty, and the index of the previous head plus 1
  (in \<open>uint64_t\<close>) otherwise; it sets the state to \<open>kComplete\<close> and notifies the condition
  variable once; and it returns the directory id, the previous head, or the empty
  version name if there was none, and the new head.
\<close>

theorem AddNewVersion_result:
  "AddNewVersion ev d v =
     ((directory_id' d,
       (if versions' d = [] then ev else hd (versions' d)),
       \<lparr>index = (if versions' d = [] then 0 else index (hd (versions' d)) + 1), id' = v\<rparr>),
      d\<lparr>store_state' := kComplete,
        versions' := \<lparr>index = (if versions' d = [] then 0 else index (hd (versions' d)) + 1),
                        id' = v\<rparr> # versions' d,
        cond_var' := Suc (cond_var' d)\<rparr>)"
  by (cases "versions' d") (simp_all add: AddNewVersion_def Let_def)

text \<open>A first version, and a version that follows the version of index 7.\<close>

theorem AddNewVersion_result_witness:
  "AddNewVersion empty_version0 root_dir ''v1'' =
     ((''root'', empty_version0, \<lparr>index = 0, id' = ''v1''\<rparr>),
      root_dir\<lparr>store_state' := kComplete, versions' := [\<lparr>index = 0, id' = ''v1''\<rparr>],
               cond_var' := 1\<rparr>)
   \<and> AddNewVersion empty_version0 (root_dir\<lparr>versions' := [\<lparr>index = 7, id' = ''v0''\<rparr>]\<rparr>) ''v1'' =
     ((''root'', \<lparr>index = 7, id' = ''v0''\<rparr>, \<lparr>index = 8, id' = ''v1''\<rparr>),
      root_dir\<lparr>store_state' := kComplete,
               versions' := [\<lparr>index = 8, id' = ''v1''\<rparr>, \<lparr>index = 7, id' = ''v0''\<rparr>],
               cond_var' := 1\<rparr>)"
  using AddNewVersion_result [of empty_version0 root_dir "''v1''"]
    AddNewVersion_result [of empty_version0
      "root_dir\<lparr>versions' := [\<lparr>index = 7, id' = ''v0''\<rparr>]\<rparr>" "''v1''"]
  by (simp add: root_dir_def)

subsection \<open>C8: the parent id is not serialised\<close>

text \<open>
  Claim C8: two directories that differ only in \<open>parent_id'\<close> serialise to the same bytes
  (or fail alike).
\<close>

theorem Serialise_ignores_parent_id:
  "fst (Serialise C W (d\<lparr>parent_id' := p\<rparr>)) = fst (Serialise C W d)"
  by (simp add: Serialise_def Let_def split: prod.splits sum.splits)

theorem Serialise_ignores_parent_id_witness:
  "fst (Serialise codec0 wire0 (two_files_dir\<lparr>parent_id' := ''elsewhere''\<rparr>))
     = fst (Serialise codec0 wire0 two_files_dir)"
  using Serialise_ignores_parent_id [where C = codec0 and W = wire0 and d = two_files_dir
      and p = "''elsewhere''"] by simp

subsection \<open>C9: the errors of lookup, insertion and removal\<close>

text \<open>
  Claim C9: \<open>GetChild\<close>, \<open>GetMutableChild\<close> and \<open>RemoveChild\<close> throw \<open>no_such_file\<close> exactly
  when no child has the name, and \<open>RemoveChild\<close> then leaves the directory as it was (the
  other two never change it); \<open>AddChild\<close> throws \<open>file_exists\<close> exactly when a child has
  the name of the new one, and then leaves the directory as it was.
\<close>

theorem child_errors:
  "(GetChild d nm = Inl no_such_file
      \<longleftrightarrow> nm \<notin> set (map (\<lambda>c. name (meta_data c)) (children' d)))
 \<and> (GetMutableChild d nm = Inl no_such_file
      \<longleftrightarrow> nm \<notin> set (map (\<lambda>c. name (meta_data c)) (children' d)))
 \<and> (fst (RemoveChild d nm) = Inl no_such_file
      \<longleftrightarrow> nm \<notin> set (map (\<lambda>c. name (meta_data c)) (children' d)))
 \<and> (nm \<notin> set (map (\<lambda>c. name (meta_data c)) (children' d)) \<longrightarrow> snd (RemoveChild d nm) = d)
 \<and> (fst (AddChild this d child) = Inl file_exists
      \<longleftrightarrow> name (meta_data child) \<in> set (map (\<lambda>c. name (meta_data c)) (children' d)))
 \<and> (name (meta_data child) \<in> set (map (\<lambda>c. name (meta_data c)) (children' d))
      \<longrightarrow> snd (AddChild this d child) = d)"
proof -
  let ?names = "set (map (\<lambda>c. name (meta_data c)) (children' d))"
  have g: "GetChild d nm = Inl no_such_file \<longleftrightarrow> nm \<notin> ?names"
    using Find_end [of d nm]
    by (auto simp: GetChild_def Let_def split: sum.splits dest: child_assertion_error)
  have gm: "GetMutableChild d nm = Inl no_such_file \<longleftrightarrow> nm \<notin> ?names"
    using Find_end [of d nm]
    by (auto simp: GetMutableChild_def Let_def split: sum.splits dest: child_assertion_error)
  have r1: "fst (RemoveChild d nm) = Inl no_such_file \<longleftrightarrow> nm \<notin> ?names"
  proof
    assume a: "fst (RemoveChild d nm) = Inl no_such_file"
    show "nm \<notin> ?names"
    proof (rule ccontr)
      assume "\<not> nm \<notin> ?names"
      then have ne: "Find d nm \<noteq> length (children' d)" using Find_end [of d nm] by simp
      let ?d2 = "SortAndResetChildrenCounter
        (d\<lparr>children' := take (Find d nm) (children' d) @ drop (Suc (Find d nm)) (children' d)\<rparr>)"
      from a ne have "fst (DoScheduleForStoring True ?d2) = Inl no_such_file"
        by (auto simp: RemoveChild_def Let_def split: prod.splits sum.splits)
      then show False using DoScheduleForStoring_error by fastforce
    qed
  next
    assume "nm \<notin> ?names"
    then have "Find d nm = length (children' d)" using Find_end [of d nm] by simp
    then show "fst (RemoveChild d nm) = Inl no_such_file" by (simp add: RemoveChild_def)
  qed
  have r2: "nm \<notin> ?names \<longrightarrow> snd (RemoveChild d nm) = d"
    using Find_end [of d nm] by (simp add: RemoveChild_def)
  have a1: "fst (AddChild this d child) = Inl file_exists \<longleftrightarrow> name (meta_data child) \<in> ?names"
  proof
    assume a: "fst (AddChild this d child) = Inl file_exists"
    show "name (meta_data child) \<in> ?names"
    proof (rule ccontr)
      assume "name (meta_data child) \<notin> ?names"
      then have e: "Find d (name (meta_data child)) = length (children' d)"
        using Find_end [of d "name (meta_data child)"] by simp
      from a e have "fst (DoScheduleForStoring True (SortAndResetChildrenCounter
               (d\<lparr>children' := children' d @ [child\<lparr>parent := Some this\<rparr>]\<rparr>))) = Inl file_exists"
        by (simp add: AddChild_def Let_def)
      then show False using DoScheduleForStoring_error by fastforce
    qed
  next
    assume "name (meta_data child) \<in> ?names"
    then have "Find d (name (meta_data child)) \<noteq> length (children' d)"
      using Find_end [of d "name (meta_data child)"] by simp
    then show "fst (AddChild this d child) = Inl file_exists" by (simp add: AddChild_def)
  qed
  have a2: "name (meta_data child) \<in> ?names \<longrightarrow> snd (AddChild this d child) = d"
    using Find_end [of d "name (meta_data child)"] by (simp add: AddChild_def)
  show ?thesis using g gm r1 r2 a1 a2 by blast
qed

text \<open>The directory with \<open>a.txt\<close> and \<open>f.txt\<close>, asked for \<open>zz\<close> and given \<open>f.txt\<close> again.\<close>

theorem child_errors_witness:
  "''zz'' \<notin> set (map (\<lambda>c. name (meta_data c)) (children' two_files_dir))
   \<and> ''f.txt'' \<in> set (map (\<lambda>c. name (meta_data c)) (children' two_files_dir))
   \<and> GetChild two_files_dir ''zz'' = Inl no_such_file
   \<and> GetMutableChild two_files_dir ''zz'' = Inl no_such_file
   \<and> RemoveChild two_files_dir ''zz'' = (Inl no_such_file, two_files_dir)
   \<and> GetChild two_files_dir ''f.txt'' \<noteq> Inl no_such_file
   \<and> AddChild 0 two_files_dir idle_file = (Inl file_exists, two_files_dir)
   \<and> fst (AddChild 0 two_files_dir (idle_file\<lparr>meta_data := file_meta\<lparr>name := ''zz''\<rparr>\<rparr>))
        \<noteq> Inl file_exists"
proof -
  have m: "map (\<lambda>c. name (meta_data c)) (children' two_files_dir) = [''a.txt'', ''f.txt'']"
    by (simp add: two_files_dir_def idle_file_def FileContext_ctor_def other_meta_def file_meta_def)
  have n: "name (meta_data idle_file) = ''f.txt''"
    by (simp add: idle_file_def FileContext_ctor_def file_meta_def)
  show ?thesis
    using child_errors [of two_files_dir "''zz''" 0 idle_file]
      child_errors [of two_files_dir "''f.txt''" 0
        "idle_file\<lparr>meta_data := file_meta\<lparr>name := ''zz''\<rparr>\<rparr>"]
    by (simp add: m n prod_eq_iff)
qed

subsection \<open>C10: flushing a file that has no encryptor\<close>

text \<open>
  Claim C10: let the lookup of \<open>Flush\<close> succeed: the path resolves, the child exists and
  the assertion of \<open>GetMutableChild\<close> holds. If the file has no encryptor, \<open>Flush\<close> returns
  normally and changes nothing, so no flush is made. And \<open>Flush\<close> throws \<open>unknown\<close>
  exactly when the file has an encryptor whose \<open>Flush()\<close> returns false.
\<close>

theorem Flush_no_encryptor:
  assumes "GetMutableContext drv p = Inr fcp"
  shows "(self_encryptor (deref drv fcp) = None \<longrightarrow> Flush C drv p = (Inr (), drv))
       \<and> (fst (Flush C drv p) = Inl unknown \<longleftrightarrow>
            (\<exists>enc. self_encryptor (deref drv fcp) = Some enc \<and> \<not> fst (enc_Flush C enc)))"
  using assms by (auto simp: Flush_def Let_def split: option.splits prod.splits)

text \<open>The file \<open>a.txt\<close>, which was never opened.\<close>

theorem Flush_no_encryptor_witness:
  "GetMutableContext drive1 [''a.txt''] = Inr (0, 0)
   \<and> self_encryptor (deref drive1 (0, 0)) = None
   \<and> Flush codec0 drive1 [''a.txt''] = (Inr (), drive1)"
proof -
  have g: "GetMutableContext drive1 [''a.txt''] = Inr (0, 0)"
    by (simp add: GetMutableContext_def GetMutableChild_def Find_def child_assertion_def
        drive1_def two_files_dir_def FileContext_ctor_def other_meta_def parent_path_def
        filename_def Let_def)
  have e: "self_encryptor (deref drive1 (0, 0)) = None"
    by (simp add: deref_def drive1_def two_files_dir_def FileContext_ctor_def)
  show ?thesis using g e Flush_no_encryptor [OF g, of codec0] by simp
qed

end
